theory Spec2Isabelle
  imports Main "HOL-Library.Word"
begin

section \<open>JavaScript strings\<close>

text \<open>
  A JavaScript string is a sequence of UTF-16 code units, so a file name with Chinese
  characters is a list of 16-bit values.  String literals of the source are written
  \<open>js ''...''\<close>: every ASCII character becomes its code unit.
\<close>

type_synonym code_unit = "16 word"
type_synonym jsstring = "code_unit list"

definition js :: "string \<Rightarrow> jsstring" where
  "js s = map of_char s"

abbreviation CHAR_DOT :: code_unit where
  "CHAR_DOT \<equiv> 46"

abbreviation CHAR_FORWARD_SLASH :: code_unit where
  "CHAR_FORWARD_SLASH \<equiv> 47"

text \<open>
  \<open>String.prototype.slice(start, end)\<close>: a negative index counts from the end of the
  string, both indices are clamped to the string, and an empty range gives \<open>''\<close>.
\<close>

definition String_slice :: "jsstring \<Rightarrow> int \<Rightarrow> int \<Rightarrow> jsstring" where
  "String_slice s start fin =
     (let len = int (length s);
          from = (if start < 0 then max (len + start) 0 else min start len);
          to = (if fin < 0 then max (len + fin) 0 else min fin len)
      in take (nat (max (to - from) 0)) (drop (nat from) s))"

text \<open>
  A number inside a template literal is converted with \<open>Number.prototype.toString\<close>.
  \<open>Date.now()\<close> is an integer number of milliseconds, far below \<open>10^21\<close>, so the
  conversion is the plain decimal notation, with a minus sign for a clock set before 1970.
\<close>

function digits_of :: "nat \<Rightarrow> jsstring" where
  "digits_of n =
     (if n < 10 then [48 + of_nat n]
      else digits_of (n div 10) @ [48 + of_nat (n mod 10)])"
  by pat_completeness auto
termination
  by (relation "measure id") auto

declare digits_of.simps [simp del]

definition Number_toString :: "int \<Rightarrow> jsstring" where
  "Number_toString i =
     (if i < 0 then 45 # digits_of (nat (- i)) else digits_of (nat i))"

text \<open>
  Truthiness of an optional string: \<open>undefined\<close>, \<open>null\<close> (both \<open>None\<close>) and the empty
  string are falsy, every other string is truthy.
\<close>

fun truthy :: "jsstring option \<Rightarrow> bool" where
  "truthy None = False"
| "truthy (Some s) = (s \<noteq> [])"

text \<open>\<open>a || b\<close> on strings: \<open>a\<close> unless it is empty.\<close>

definition or_else :: "jsstring \<Rightarrow> jsstring \<Rightarrow> jsstring" where
  "or_else a b = (if a \<noteq> [] then a else b)"

section \<open>\<open>path.extname\<close> (Node.js, POSIX flavour)\<close>

text \<open>
  \<open>file-utils.ts\<close> takes the extension with \<open>path.extname\<close> of the Node.js runtime.
  The function scans the path from its last code unit to its first, with five variables:
  \<open>startDot\<close> (index of the last dot of the last path component, \<open>-1\<close> while none was
  seen), \<open>startPart\<close> (index where the last component starts), \<open>end\<close> (index after the
  last code unit that is not a trailing slash, \<open>-1\<close> while none was seen),
  \<open>matchedSlash\<close> (still inside the trailing slashes) and \<open>preDotState\<close> (\<open>0\<close>: nothing
  seen before the dot, \<open>-1\<close>: the last code unit seen before the dot is not a dot, \<open>1\<close>: it
  is a dot).  The loop stops at the first slash that is not a trailing one.  This is the
  POSIX variant, the one a Linux deployment runs; only \<open>/\<close> separates components.
\<close>

record extname_state =
  startDot :: int
  startPart :: int
  end' :: int
  matchedSlash :: bool
  preDotState :: int

text \<open>
  The part of the loop body that runs for a code unit other than a slash: it marks the
  end of the extension at the first such code unit, then looks for the dot.
\<close>

definition extname_seen :: "code_unit \<Rightarrow> int \<Rightarrow> extname_state \<Rightarrow> extname_state" where
  "extname_seen code i s =
     (let s1 = (if end' s = - 1 then s\<lparr>end' := i + 1, matchedSlash := False\<rparr> else s) in
      if code = CHAR_DOT then
        (if startDot s1 = - 1 then s1\<lparr>startDot := i\<rparr>
         else if preDotState s1 \<noteq> 1 then s1\<lparr>preDotState := 1\<rparr>
         else s1)
      else if startDot s1 \<noteq> - 1 then s1\<lparr>preDotState := - 1\<rparr>
      else s1)"

text \<open>
  \<open>extname_loop path n s\<close> runs the iterations \<open>i = n - 1, ..., 0\<close> of
  \<open>for (let i = path.length - 1; i >= 0; --i)\<close> from the state \<open>s\<close>; a slash
  after the trailing ones sets \<open>startPart\<close> and leaves the loop.
\<close>

fun extname_loop :: "jsstring \<Rightarrow> nat \<Rightarrow> extname_state \<Rightarrow> extname_state" where
  "extname_loop path 0 s = s"
| "extname_loop path (Suc i) s =
     (if path ! i = CHAR_FORWARD_SLASH then
        (if \<not> matchedSlash s then s\<lparr>startPart := int i + 1\<rparr>
         else extname_loop path i s)
      else extname_loop path i (extname_seen (path ! i) (int i) s))"

definition extname_init :: extname_state where
  "extname_init =
     \<lparr>startDot = - 1, startPart = 0, end' = - 1, matchedSlash = True, preDotState = 0\<rparr>"

definition extname :: "jsstring \<Rightarrow> jsstring" where
  "extname path =
     (let s = extname_loop path (length path) extname_init in
      if startDot s = - 1 \<or> end' s = - 1 \<or> preDotState s = 0 \<or>
         (preDotState s = 1 \<and> startDot s = end' s - 1 \<and> startDot s = startPart s + 1)
      then []
      else String_slice path (startDot s) (end' s))"

section \<open>The key generator: \<open>sanitizeFileName\<close>\<close>

text \<open>
  \<open>sanitizeFileName ts uniqueId originalName\<close> is the function of \<open>file-utils.ts\<close>.
  Its two readings of the environment are parameters: \<open>ts\<close> is what \<open>Date.now()\<close>
  returns and \<open>uniqueId\<close> what \<open>ulid()\<close> returns.  The argument is \<open>None\<close> when the
  caller passes \<open>undefined\<close> or \<open>null\<close>.
\<close>

definition sanitizeFileName :: "int \<Rightarrow> jsstring \<Rightarrow> jsstring option \<Rightarrow> jsstring" where
  "sanitizeFileName ts uniqueId originalName =
     (if \<not> truthy originalName then
        js ''prod_'' @ Number_toString ts @ js ''_'' @ uniqueId @ js ''.bin''
      else
        let ext = or_else (extname (the originalName)) [] in
        js ''prod_'' @ Number_toString ts @ js ''_'' @ uniqueId @ ext)"

text \<open>The character set \<open>[A-Za-z0-9_.]\<close> that the documentation promises for a key.\<close>

definition key_char :: "code_unit \<Rightarrow> bool" where
  "key_char c \<longleftrightarrow>
     (65 \<le> c \<and> c \<le> 90) \<or> (97 \<le> c \<and> c \<le> 122) \<or> (48 \<le> c \<and> c \<le> 57) \<or>
     c = 95 \<or> c = CHAR_DOT"

definition is_digit :: "code_unit \<Rightarrow> bool" where
  "is_digit c \<longleftrightarrow> 48 \<le> c \<and> c \<le> 57"

text \<open>
  The extension as the specification words it: the substring of the input from its last
  dot onward, or the empty string if the input has no dot.  It is compared with
  \<open>extname\<close> below.
\<close>

definition from_last_dot :: "jsstring \<Rightarrow> jsstring" where
  "from_last_dot s =
     (if CHAR_DOT \<in> set s
      then CHAR_DOT # rev (takeWhile (\<lambda>c. c \<noteq> CHAR_DOT) (rev s))
      else [])"

section \<open>More string functions of the runtime\<close>

text \<open>\<open>s.replace(/\/$/, '')\<close>: one slash at the very end of the string is removed.\<close>

definition replace_trailing_slash :: "jsstring \<Rightarrow> jsstring" where
  "replace_trailing_slash s =
     (if s \<noteq> [] \<and> last s = CHAR_FORWARD_SLASH then butlast s else s)"

definition startsWith :: "jsstring \<Rightarrow> jsstring \<Rightarrow> bool" where
  "startsWith s p \<longleftrightarrow> take (length p) s = p"

text \<open>
  \<open>s.replace(pat, rep)\<close> with a string pattern replaces the first occurrence of
  \<open>pat\<close> only.
\<close>

fun String_replace :: "jsstring \<Rightarrow> jsstring \<Rightarrow> jsstring \<Rightarrow> jsstring" where
  "String_replace [] pat rep = (if pat = [] then rep else [])"
| "String_replace (c # cs) pat rep =
     (if take (length pat) (c # cs) = pat then rep @ drop (length pat) (c # cs)
      else c # String_replace cs pat rep)"

text \<open>
  \<open>content.match(/^[A-Za-z0-9+/]+=*$/)\<close>: the longest run of alphabet characters at
  the start must not be empty, and whatever follows it must be \<open>=\<close> signs up to the end
  of the string (\<open>=\<close> is not in the alphabet, so the greedy split is the only one).
\<close>

definition base64_char :: "code_unit \<Rightarrow> bool" where
  "base64_char c \<longleftrightarrow>
     (65 \<le> c \<and> c \<le> 90) \<or> (97 \<le> c \<and> c \<le> 122) \<or> (48 \<le> c \<and> c \<le> 57) \<or>
     c = 43 \<or> c = 47"

definition match_base64 :: "jsstring \<Rightarrow> bool" where
  "match_base64 s \<longleftrightarrow>
     takeWhile base64_char s \<noteq> [] \<and> list_all (\<lambda>c. c = 61) (dropWhile base64_char s)"

text \<open>
  \<open>encodeURIComponent\<close> (ECMAScript \<open>Encode\<close>): an unreserved code unit stays, every
  other code point is written as the percent-escaped bytes of its UTF-8 encoding, and a
  surrogate without its partner raises \<open>URIError\<close> (\<open>None\<close>).
\<close>

definition uri_unreserved :: "code_unit \<Rightarrow> bool" where
  "uri_unreserved c \<longleftrightarrow>
     (65 \<le> c \<and> c \<le> 90) \<or> (97 \<le> c \<and> c \<le> 122) \<or> (48 \<le> c \<and> c \<le> 57) \<or>
     c \<in> {45, 95, 46, 33, 126, 42, 39, 40, 41}"

definition hex_digit :: "nat \<Rightarrow> code_unit" where
  "hex_digit n = (if n < 10 then 48 + of_nat n else 55 + of_nat n)"

definition percent :: "nat \<Rightarrow> jsstring" where
  "percent b = [37, hex_digit (b div 16), hex_digit (b mod 16)]"

definition utf8 :: "nat \<Rightarrow> nat list" where
  "utf8 cp =
     (if cp < 0x80 then [cp]
      else if cp < 0x800 then [0xC0 + cp div 64, 0x80 + cp mod 64]
      else if cp < 0x10000 then
        [0xE0 + cp div 4096, 0x80 + cp div 64 mod 64, 0x80 + cp mod 64]
      else [0xF0 + cp div 262144, 0x80 + cp div 4096 mod 64, 0x80 + cp div 64 mod 64,
            0x80 + cp mod 64])"

definition escape :: "nat \<Rightarrow> jsstring" where
  "escape cp = concat (map percent (utf8 cp))"

fun Encode :: "jsstring \<Rightarrow> jsstring option" where
  "Encode [] = Some []"
| "Encode (c # cs) =
     (if uri_unreserved c then map_option ((#) c) (Encode cs)
      else if \<not> (0xD800 \<le> c \<and> c \<le> 0xDFFF) then
        map_option ((@) (escape (unat c))) (Encode cs)
      else if 0xDC00 \<le> c then None
      else (case cs of
              [] \<Rightarrow> None
            | d # ds \<Rightarrow>
                if 0xDC00 \<le> d \<and> d \<le> 0xDFFF then
                  map_option
                    ((@) (escape ((unat c - 0xD800) * 0x400 + (unat d - 0xDC00) + 0x10000)))
                    (Encode ds)
                else None))"

section \<open>Errors, the log and the object store\<close>

text \<open>
  The three \<open>MedusaError.Types\<close> the provider raises.  A thrown value is either a
  \<open>MedusaError\<close> or another error of the runtime or of the AWS SDK, of which the code
  reads the message only.
\<close>

datatype error_type = INVALID_DATA | NOT_FOUND | UNEXPECTED_STATE

datatype js_error = MedusaError error_type jsstring | OtherError jsstring

fun message :: "js_error \<Rightarrow> jsstring" where
  "message (MedusaError t m) = m"
| "message (OtherError m) = m"

datatype log_level = INFO | WARN | ERROR

type_synonym bytes = "8 word list"

text \<open>
  How the body of a PUT was obtained: the caller's \<open>Buffer\<close> itself, or a call of
  \<open>Buffer.from\<close> on a string with an encoding, or on a buffer-like object.
\<close>

datatype encoding = Base64 | Binary

datatype buffer =
  TheBuffer bytes
| Buffer_from jsstring encoding
| Buffer_from_object bytes

record put_params =
  Bucket :: jsstring
  Key :: jsstring
  Body :: "buffer option"
  ContentType :: "jsstring option"
  Metadata :: "(jsstring \<times> jsstring) list option"
  ACL :: "jsstring option"

datatype s3_command =
  PutObjectCommand put_params
| DeleteObjectCommand jsstring jsstring
| GetObjectCommand jsstring jsstring

text \<open>
  A readable stream delivers its chunks and then ends, or fails with an error.  The
  answer of the store to a command carries an optional \<open>Body\<close>.
\<close>

record readable =
  chunks :: "bytes list"
  failure :: "jsstring option"

datatype s3_output = Output (Body_of: "readable option")

text \<open>An awaited promise resolves with a value or rejects with an error message.\<close>

datatype 'a settled = Resolved 'a | Rejected jsstring

text \<open>
  The runtime a call runs in: the clock, the ULID generator, \<open>client.send\<close> (its answer
  may depend on the requests sent before) and \<open>getSignedUrl\<close> (command and
  \<open>expiresIn\<close> in seconds).
\<close>

record runtime =
  Date_now :: int
  ulid :: jsstring
  send :: "s3_command list \<Rightarrow> s3_command \<Rightarrow> s3_output settled"
  getSignedUrl :: "s3_command \<Rightarrow> nat \<Rightarrow> jsstring settled"

text \<open>What a call leaves behind: the requests sent to the store and the log lines.\<close>

record world =
  sent :: "s3_command list"
  log :: "(log_level \<times> jsstring) list"

definition request :: "s3_command \<Rightarrow> world \<Rightarrow> world" where
  "request cmd w = w\<lparr>sent := sent w @ [cmd]\<rparr>"

definition logger :: "log_level \<Rightarrow> jsstring \<Rightarrow> world \<Rightarrow> world" where
  "logger lvl msg w = w\<lparr>log := log w @ [(lvl, msg)]\<rparr>"

section \<open>The storage provider\<close>

text \<open>
  \<open>S3FileProviderOptions\<close>.  The constructor copies \<open>options.bucket\<close> to
  \<open>this.bucket\<close> and \<open>options.file_url\<close> to \<open>this.fileUrl\<close>, both read-only, so the
  operations below read them from the options.
\<close>

record S3FileProviderOptions =
  file_url :: "jsstring option"
  access_key_id :: jsstring
  secret_access_key :: jsstring
  region :: jsstring
  bucket :: jsstring
  endpoint :: "jsstring option"
  s3ForcePathStyle :: "bool option"
  signatureVersion :: "jsstring option"

fun truthy_flag :: "bool option \<Rightarrow> bool" where
  "truthy_flag None = False"
| "truthy_flag (Some b) = b"

text \<open>
  The catch block every operation but \<open>delete\<close> ends with: the error is logged and a
  \<open>MedusaError\<close> of type \<open>UNEXPECTED_STATE\<close> with the same text is thrown, whatever was
  thrown inside the \<open>try\<close>.
\<close>

definition catch :: "jsstring \<Rightarrow> (js_error + 'a) \<times> world \<Rightarrow> (js_error + 'a) \<times> world" where
  "catch prefix r =
     (case r of
        (Inl e, w) \<Rightarrow>
          (Inl (MedusaError UNEXPECTED_STATE (prefix @ message e)),
           logger ERROR (prefix @ message e) w)
      | (Inr v, w) \<Rightarrow> (Inr v, w))"

subsection \<open>\<open>upload\<close>\<close>

datatype file_content =
  BufferContent bytes
| StringContent jsstring
| BufferLike bytes
| NotBufferLike jsstring

record ProviderUploadFileDTO =
  filename :: "jsstring option"
  mimeType :: jsstring
  content :: file_content

record ProviderFileResultDTO =
  url :: jsstring
  key :: jsstring

text \<open>
  Lines 117 to 130: the content as a buffer.  \<open>Buffer.from\<close> throws a \<open>TypeError\<close> on a
  value that is no string, buffer or array-like object; \<open>NotBufferLike\<close> carries its
  message.
\<close>

fun upload_content :: "file_content \<Rightarrow> js_error + buffer" where
  "upload_content (BufferContent b) = Inr (TheBuffer b)"
| "upload_content (StringContent s) =
     (if match_base64 s then Inr (Buffer_from s Base64) else Inr (Buffer_from s Binary))"
| "upload_content (BufferLike b) = Inr (Buffer_from_object b)"
| "upload_content (NotBufferLike m) = Inl (OtherError m)"

text \<open>Lines 153 to 183: the URL of the uploaded object.\<close>

definition upload_url :: "S3FileProviderOptions \<Rightarrow> jsstring \<Rightarrow> jsstring" where
  "upload_url opts fileKey =
     (if truthy (file_url opts) then
        let baseUrl = replace_trailing_slash (the (file_url opts)) in
        baseUrl @ js ''/'' @ fileKey
      else if truthy (endpoint opts) then
        let endpoint0 = replace_trailing_slash (the (endpoint opts)) in
        case (if startsWith endpoint0 (js ''http://'')
              then (js ''http://'', String_replace endpoint0 (js ''http://'') [])
              else if startsWith endpoint0 (js ''https://'')
              then (js ''https://'', String_replace endpoint0 (js ''https://'') [])
              else (js ''https://'', endpoint0)) of
          (protocol, endpoint1) \<Rightarrow>
            if truthy_flag (s3ForcePathStyle opts)
            then protocol @ endpoint1 @ js ''/'' @ bucket opts @ js ''/'' @ fileKey
            else protocol @ bucket opts @ js ''.'' @ endpoint1 @ js ''/'' @ fileKey
      else js ''https://'' @ bucket opts @ js ''.s3.'' @ region opts
             @ js ''.amazonaws.com/'' @ fileKey)"

text \<open>Lines 135 to 148: the parameters of the PUT.\<close>

definition putCommandParams ::
  "S3FileProviderOptions \<Rightarrow> jsstring \<Rightarrow> buffer \<Rightarrow> jsstring \<Rightarrow> jsstring \<Rightarrow> put_params" where
  "putCommandParams opts fileKey body mime encodedName =
     \<lparr>Bucket = bucket opts, Key = fileKey, Body = Some body, ContentType = Some mime,
      Metadata = Some [(js ''original-filename'', encodedName)],
      ACL = (if \<not> truthy_flag (s3ForcePathStyle opts) then Some (js ''public-read'')
             else None)\<rparr>"

text \<open>The body of the \<open>try\<close> block of \<open>upload\<close>, lines 110 to 190.\<close>

definition upload_try ::
  "S3FileProviderOptions \<Rightarrow> runtime \<Rightarrow> ProviderUploadFileDTO \<Rightarrow> world
     \<Rightarrow> (js_error + ProviderFileResultDTO) \<times> world" where
  "upload_try opts rt file w =
     (let fileKey = sanitizeFileName (Date_now rt) (ulid rt) (filename file) in
      case upload_content (content file) of
        Inl e \<Rightarrow> (Inl e, w)
      | Inr body \<Rightarrow>
          (case Encode (the (filename file)) of
             None \<Rightarrow> (Inl (OtherError (js ''URI malformed'')), w)
           | Some encodedName \<Rightarrow>
               let putCommand = PutObjectCommand
                     (putCommandParams opts fileKey body (mimeType file) encodedName)
               in case send rt (sent w) putCommand of
                    Rejected m \<Rightarrow> (Inl (OtherError m), request putCommand w)
                  | Resolved out \<Rightarrow>
                      (Inr \<lparr>url = upload_url opts fileKey, key = fileKey\<rparr>,
                       logger INFO
                         (js ''Successfully uploaded file '' @ fileKey
                            @ js '' to S3 bucket '' @ bucket opts)
                         (request putCommand w))))"

definition upload ::
  "S3FileProviderOptions \<Rightarrow> runtime \<Rightarrow> ProviderUploadFileDTO option \<Rightarrow> world
     \<Rightarrow> (js_error + ProviderFileResultDTO) \<times> world" where
  "upload opts rt file w =
     (case file of
        None \<Rightarrow> (Inl (MedusaError INVALID_DATA (js ''No file provided'')), w)
      | Some f \<Rightarrow>
          if \<not> truthy (filename f)
          then (Inl (MedusaError INVALID_DATA (js ''No filename provided'')), w)
          else catch (js ''Failed to upload file: '') (upload_try opts rt f w))"

subsection \<open>\<open>delete\<close>\<close>

text \<open>
  \<open>ProviderDeleteFileDTO\<close> and \<open>ProviderGetFileDTO\<close> are read through \<open>fileKey\<close>
  only.  An item may itself be \<open>undefined\<close> (\<open>file?.fileKey\<close>).
\<close>

record ProviderFileDTO =
  fileKey :: "jsstring option"

definition fileKey_of :: "ProviderFileDTO option \<Rightarrow> jsstring option" where
  "fileKey_of file = (case file of None \<Rightarrow> None | Some f \<Rightarrow> fileKey f)"

datatype 'a one_or_many = One 'a | Many "'a list"

fun as_array :: "'a one_or_many \<Rightarrow> 'a list" where
  "as_array (One x) = [x]"
| "as_array (Many xs) = xs"

text \<open>
  The \<open>for ... of\<close> loop of \<open>delete\<close>, lines 205 to 223: the key of an item is
  checked when its turn comes, and a rejected request is logged as a warning.
\<close>

definition deleteCommand :: "S3FileProviderOptions \<Rightarrow> ProviderFileDTO option \<Rightarrow> s3_command" where
  "deleteCommand opts file = DeleteObjectCommand (bucket opts) (the (fileKey_of file))"

fun delete_loop ::
  "S3FileProviderOptions \<Rightarrow> runtime \<Rightarrow> ProviderFileDTO option list \<Rightarrow> world
     \<Rightarrow> (js_error + unit) \<times> world" where
  "delete_loop opts rt [] w = (Inr (), w)"
| "delete_loop opts rt (file # files) w =
     (if \<not> truthy (fileKey_of file)
      then (Inl (MedusaError INVALID_DATA (js ''No file key provided'')), w)
      else
        (case send rt (sent w) (deleteCommand opts file) of
           Resolved out \<Rightarrow>
             delete_loop opts rt files
               (logger INFO
                  (js ''Successfully deleted file '' @ the (fileKey_of file)
                     @ js '' from S3 bucket '' @ bucket opts)
                  (request (deleteCommand opts file) w))
         | Rejected m \<Rightarrow>
             delete_loop opts rt files
               (logger WARN
                  (js ''Failed to delete file '' @ the (fileKey_of file) @ js '': '' @ m)
                  (request (deleteCommand opts file) w))))"

definition delete ::
  "S3FileProviderOptions \<Rightarrow> runtime \<Rightarrow> ProviderFileDTO option one_or_many \<Rightarrow> world
     \<Rightarrow> (js_error + unit) \<times> world" where
  "delete opts rt fileData w = delete_loop opts rt (as_array fileData) w"

subsection \<open>\<open>getPresignedUploadUrl\<close>\<close>

datatype ProviderGetPresignedUploadUrlDTO = PresignedUpload (filename_of: "jsstring option")

definition presigned_filename :: "ProviderGetPresignedUploadUrlDTO option \<Rightarrow> jsstring option" where
  "presigned_filename fileData =
     (case fileData of None \<Rightarrow> None | Some d \<Rightarrow> filename_of d)"

definition getPresignedUploadUrl_try ::
  "S3FileProviderOptions \<Rightarrow> runtime \<Rightarrow> jsstring option \<Rightarrow> world
     \<Rightarrow> (js_error + ProviderFileResultDTO) \<times> world" where
  "getPresignedUploadUrl_try opts rt name w =
     (let fileKey = sanitizeFileName (Date_now rt) (ulid rt) name;
          putCommand = PutObjectCommand
            \<lparr>Bucket = bucket opts, Key = fileKey, Body = None, ContentType = None,
             Metadata = None, ACL = None\<rparr>
      in case getSignedUrl rt putCommand (15 * 60) of
           Rejected m \<Rightarrow> (Inl (OtherError m), w)
         | Resolved u \<Rightarrow> (Inr \<lparr>url = u, key = fileKey\<rparr>, w))"

definition getPresignedUploadUrl ::
  "S3FileProviderOptions \<Rightarrow> runtime \<Rightarrow> ProviderGetPresignedUploadUrlDTO option \<Rightarrow> world
     \<Rightarrow> (js_error + ProviderFileResultDTO) \<times> world" where
  "getPresignedUploadUrl opts rt fileData w =
     (if \<not> truthy (presigned_filename fileData)
      then (Inl (MedusaError INVALID_DATA (js ''No filename provided'')), w)
      else catch (js ''Failed to generate presigned upload URL: '')
             (getPresignedUploadUrl_try opts rt (presigned_filename fileData) w))"

subsection \<open>\<open>getAsBuffer\<close>\<close>

text \<open>
  The body of the \<open>try\<close> block, lines 304 to 330.  The \<open>NOT_FOUND\<close> error is thrown
  inside the block.  The stream is taken to end or to fail; \<open>Buffer.concat\<close> joins the
  chunks.
\<close>

definition getAsBuffer_try ::
  "S3FileProviderOptions \<Rightarrow> runtime \<Rightarrow> jsstring \<Rightarrow> world \<Rightarrow> (js_error + bytes) \<times> world" where
  "getAsBuffer_try opts rt k w =
     (let getCommand = GetObjectCommand (bucket opts) k in
      case send rt (sent w) getCommand of
        Rejected m \<Rightarrow> (Inl (OtherError m), request getCommand w)
      | Resolved response \<Rightarrow>
          (case Body_of response of
             None \<Rightarrow>
               (Inl (MedusaError NOT_FOUND (js ''File '' @ k @ js '' not found or empty'')),
                request getCommand w)
           | Some stream \<Rightarrow>
               (case failure stream of
                  Some m \<Rightarrow> (Inl (OtherError m), request getCommand w)
                | None \<Rightarrow>
                    (Inr (concat (chunks stream)),
                     logger INFO (js ''Retrieved buffer for file '' @ k)
                       (request getCommand w)))))"

definition getAsBuffer ::
  "S3FileProviderOptions \<Rightarrow> runtime \<Rightarrow> ProviderFileDTO option \<Rightarrow> world
     \<Rightarrow> (js_error + bytes) \<times> world" where
  "getAsBuffer opts rt fileData w =
     (if \<not> truthy (fileKey_of fileData)
      then (Inl (MedusaError INVALID_DATA (js ''No file key provided'')), w)
      else catch (js ''Failed to get buffer: '')
             (getAsBuffer_try opts rt (the (fileKey_of fileData)) w))"

section \<open>Example configurations\<close>

text \<open>
  Concrete options and runtimes at which the theorems below are evaluated: a MinIO
  endpoint with path-style addressing, the same behind a CDN, and a runtime with a fixed
  clock and token over a given store.
\<close>

definition example_options :: S3FileProviderOptions where
  "example_options =
     \<lparr>file_url = None, access_key_id = js ''id'', secret_access_key = js ''secret'',
      region = js ''us-east-1'', bucket = js ''media'',
      endpoint = Some (js ''http://minio.local:9000''), s3ForcePathStyle = Some True,
      signatureVersion = None\<rparr>"


definition example_runtime ::
  "(s3_command list \<Rightarrow> s3_command \<Rightarrow> s3_output settled) \<Rightarrow> runtime" where
  "example_runtime store =
     \<lparr>Date_now = 1700000000000, ulid = js ''01ARZ3NDEKTSV4RRFFQ69G5FAV'', send = store,
      getSignedUrl = (\<lambda>cmd expiresIn. Resolved (js ''https://signed.example/put''))\<rparr>"

text \<open>A store that answers every command without a body.\<close>

definition empty_store :: "s3_command list \<Rightarrow> s3_command \<Rightarrow> s3_output settled" where
  "empty_store history cmd = Resolved (Output None)"

text \<open>A store that rejects the deletion of the key \<open>b.png\<close>.\<close>

definition rejecting_store :: "s3_command list \<Rightarrow> s3_command \<Rightarrow> s3_output settled" where
  "rejecting_store history cmd =
     (if cmd = DeleteObjectCommand (js ''media'') (js ''b.png'')
      then Rejected (js ''AccessDenied'')
      else Resolved (Output None))"

definition empty_world :: world where
  "empty_world = \<lparr>sent = [], log = []\<rparr>"

section \<open>Properties of the key generator\<close>

subsection \<open>Decimal digits\<close>

lemma digit_unit: "m < 10 \<Longrightarrow> is_digit (48 + of_nat m)"
proof -
  assume "m < 10"
  then consider "m = 0" | "m = 1" | "m = 2" | "m = 3" | "m = 4" | "m = 5" | "m = 6"
    | "m = 7" | "m = 8" | "m = 9"
    by atomize_elim arith
  then show ?thesis
    by cases (simp_all add: is_digit_def)
qed

lemma digits_of_digits: "list_all is_digit (digits_of n)"
proof (induction n rule: digits_of.induct)
  case (1 n)
  show ?case
  proof (cases "n < 10")
    case True
    then show ?thesis by (simp add: digits_of.simps [of n] digit_unit)
  next
    case False
    with 1 show ?thesis by (simp add: digits_of.simps [of n] digit_unit)
  qed
qed

lemma length_digits_of:
  "n < 10 ^ Suc k \<Longrightarrow> k = 0 \<or> 10 ^ k \<le> n \<Longrightarrow> length (digits_of n) = Suc k"
proof (induction k arbitrary: n)
  case 0
  then show ?case by (simp add: digits_of.simps [of n])
next
  case (Suc k)
  from Suc.prems have big: "10 ^ Suc k \<le> n" by simp
  have "(10::nat) \<le> 10 ^ Suc k" by simp
  with big have n10: "\<not> n < 10" by linarith
  from Suc.prems(1) have "n div 10 < 10 ^ Suc k" by (simp add: less_mult_imp_div_less mult.commute)
  moreover from big have "10 ^ k \<le> n div 10" by (simp add: div_greater_zero_iff less_eq_div_iff_mult_less_eq mult.commute)
  ultimately have "length (digits_of (n div 10)) = Suc k" using Suc.IH by blast
  with n10 show ?case by (simp add: digits_of.simps [of n])
qed

subsection \<open>The scan of \<open>path.extname\<close>\<close>

lemma startDot_none:
  "startDot s = - 1 \<Longrightarrow> \<forall>i<n. path ! i \<noteq> CHAR_DOT \<Longrightarrow> startDot (extname_loop path n s) = - 1"
proof (induction n arbitrary: s)
  case 0
  then show ?case by simp
next
  case (Suc n)
  have "startDot (extname_seen (path ! n) (int n) s) = - 1"
    using Suc.prems by (simp add: extname_seen_def)
  with Suc show ?case by simp
qed

lemma seen_plain:
  "end' s \<noteq> - 1 \<Longrightarrow> startDot s = - 1 \<Longrightarrow> c \<noteq> CHAR_DOT \<Longrightarrow> extname_seen c i s = s"
  by (simp add: extname_seen_def)

lemma loop_suffix:
  "m \<le> n \<Longrightarrow> \<forall>i. m \<le> i \<and> i < n \<longrightarrow> path ! i \<noteq> CHAR_DOT \<and> path ! i \<noteq> CHAR_FORWARD_SLASH \<Longrightarrow>
   end' s \<noteq> - 1 \<Longrightarrow> startDot s = - 1 \<Longrightarrow> extname_loop path n s = extname_loop path m s"
proof (induction n)
  case 0
  then show ?case by simp
next
  case (Suc n)
  show ?case
  proof (cases "m = Suc n")
    case True
    then show ?thesis by simp
  next
    case False
    with Suc.prems have "m \<le> n" by simp
    moreover from Suc.prems \<open>m \<le> n\<close> have "path ! n \<noteq> CHAR_DOT" "path ! n \<noteq> CHAR_FORWARD_SLASH"
      by simp_all
    ultimately show ?thesis using Suc by (simp add: seen_plain)
  qed
qed

lemma loop_prefix:
  "startDot s \<noteq> - 1 \<Longrightarrow> end' s \<noteq> - 1 \<Longrightarrow> \<forall>i<k. path ! i \<noteq> CHAR_FORWARD_SLASH \<Longrightarrow>
   extname_loop path k s =
     (if k = 0 then s else s\<lparr>preDotState := (if path ! 0 = CHAR_DOT then 1 else - 1)\<rparr>)"
proof (induction k arbitrary: s)
  case 0
  then show ?case by simp
next
  case (Suc k)
  let ?s = "extname_seen (path ! k) (int k) s"
  have seen: "?s = s\<lparr>preDotState := (if path ! k = CHAR_DOT then 1 else - 1)\<rparr>"
    using Suc.prems by (simp add: extname_seen_def)
  have "extname_loop path (Suc k) s = extname_loop path k ?s"
    using Suc.prems by simp
  also have "\<dots> = (if k = 0 then ?s else ?s\<lparr>preDotState := (if path ! 0 = CHAR_DOT then 1 else - 1)\<rparr>)"
    using Suc.prems by (intro Suc.IH) (simp_all add: seen)
  finally have eq: "extname_loop path (Suc k) s =
      (if k = 0 then ?s else ?s\<lparr>preDotState := (if path ! 0 = CHAR_DOT then 1 else - 1)\<rparr>)" .
  show ?case using eq unfolding seen by (simp del: extname_loop.simps)
qed

lemma from_last_dot_split:
  "CHAR_DOT \<notin> set suf \<Longrightarrow> from_last_dot (pre @ CHAR_DOT # suf) = CHAR_DOT # suf"
proof -
  assume nd: "CHAR_DOT \<notin> set suf"
  then have "takeWhile (\<lambda>c. c \<noteq> CHAR_DOT) (rev suf @ CHAR_DOT # rev pre) = rev suf"
    by (intro takeWhile_tail [THEN trans]) auto
  then show ?thesis by (simp add: from_last_dot_def)
qed

lemma extname_no_dot: "CHAR_DOT \<notin> set path \<Longrightarrow> extname path = []"
proof -
  assume "CHAR_DOT \<notin> set path"
  then have "\<forall>i<length path. path ! i \<noteq> CHAR_DOT" by (metis nth_mem)
  then have "startDot (extname_loop path (length path) extname_init) = - 1"
    by (intro startDot_none) (simp_all add: extname_init_def)
  then show ?thesis by (simp add: extname_def)
qed

lemma extname_loop_split:
  assumes path: "path = pre @ CHAR_DOT # suf"
    and suf: "CHAR_DOT \<notin> set suf"
    and slash: "CHAR_FORWARD_SLASH \<notin> set path"
  shows "extname_loop path (length path) extname_init =
     \<lparr>startDot = int (length pre), startPart = 0, end' = int (length path),
      matchedSlash = False,
      preDotState = (if pre = [] then 0 else if hd pre = CHAR_DOT then 1 else - 1)\<rparr>"
proof -
  let ?m = "length pre"
  let ?n = "length path"
  let ?t = "\<lparr>startDot = int ?m, startPart = 0, end' = int ?n, matchedSlash = False,
             preDotState = 0\<rparr>"
  have noslash: "\<forall>i<?n. path ! i \<noteq> CHAR_FORWARD_SLASH"
    using slash by (metis nth_mem)
  have tail: "\<forall>i. Suc ?m \<le> i \<and> i < ?n \<longrightarrow> path ! i \<noteq> CHAR_DOT \<and> path ! i \<noteq> CHAR_FORWARD_SLASH"
  proof (intro allI impI conjI)
    fix i assume i: "Suc ?m \<le> i \<and> i < ?n"
    then have "path ! i = suf ! (i - Suc ?m)"
      by (simp add: path nth_append nth_Cons')
    moreover from i have "i - Suc ?m < length suf" by (auto simp: path)
    ultimately show "path ! i \<noteq> CHAR_DOT" using suf by (metis nth_mem)
    from i noslash show "path ! i \<noteq> CHAR_FORWARD_SLASH" by simp
  qed
  have dot: "path ! ?m = CHAR_DOT" by (simp add: path)
  have upto_dot: "extname_loop path ?n extname_init = extname_loop path ?m ?t"
  proof (cases "suf = []")
    case True
    then have n: "?n = Suc ?m" by (simp add: path)
    have "extname_seen CHAR_DOT (int ?m) extname_init = ?t"
      by (simp add: n extname_seen_def extname_init_def ac_simps)
    then show ?thesis
      by (simp add: n dot)
  next
    case False
    then obtain k where n: "?n = Suc k" and k: "Suc ?m \<le> k"
      by (cases suf) (auto simp: path)
    let ?u = "\<lparr>startDot = - 1, startPart = 0, end' = int ?n, matchedSlash = False,
               preDotState = 0\<rparr>"
    from tail n have last: "path ! k \<noteq> CHAR_DOT" "path ! k \<noteq> CHAR_FORWARD_SLASH"
      using k by auto
    have "extname_seen (path ! k) (int k) extname_init = ?u"
      using last by (simp add: n extname_seen_def extname_init_def ac_simps)
    then have "extname_loop path ?n extname_init = extname_loop path k ?u"
      using last by (simp add: n)
    also have "\<dots> = extname_loop path (Suc ?m) ?u"
      using k tail n by (intro loop_suffix) auto
    also have "\<dots> = extname_loop path ?m ?t"
      by (simp add: dot extname_seen_def)
    finally show ?thesis .
  qed
  have "extname_loop path ?m ?t =
      (if ?m = 0 then ?t else ?t\<lparr>preDotState := (if path ! 0 = CHAR_DOT then 1 else - 1)\<rparr>)"
    using noslash by (intro loop_prefix) (auto simp: path)
  moreover have "pre \<noteq> [] \<Longrightarrow> path ! 0 = hd pre"
    by (cases pre) (simp_all add: path)
  ultimately show ?thesis
    unfolding upto_dot by auto
qed

lemma extname_slash_free:
  assumes "CHAR_FORWARD_SLASH \<notin> set path"
  shows "extname path =
     (if from_last_dot path = path \<or> path = js ''..'' then [] else from_last_dot path)"
proof (cases "CHAR_DOT \<in> set path")
  case False
  then show ?thesis by (simp add: extname_no_dot from_last_dot_def)
next
  case True
  then obtain pre suf where path: "path = pre @ CHAR_DOT # suf" and suf: "CHAR_DOT \<notin> set suf"
    by (meson split_list_last)
  note st = extname_loop_split [OF path suf assms]
  have fld: "from_last_dot path = CHAR_DOT # suf"
    by (simp add: path from_last_dot_split [OF suf])
  have len: "length path = Suc (length pre + length suf)" by (simp add: path)
  have slice: "String_slice path (int (length pre)) (int (length path)) = CHAR_DOT # suf"
    by (simp add: String_slice_def Let_def path)
  show ?thesis
  proof (cases "pre = []")
    case True
    then have "from_last_dot path = path" using fld path by simp
    moreover have "extname path = []" by (simp add: extname_def st True)
    ultimately show ?thesis by simp
  next
    case False
    then obtain c cs where pre: "pre = c # cs" by (cases pre) auto
    have dd: "path = js ''..'' \<longleftrightarrow> c = CHAR_DOT \<and> cs = [] \<and> suf = []"
      by (cases cs; cases suf) (auto simp: path pre js_def)
    have "length (from_last_dot path) \<noteq> length path"
      by (simp add: fld len pre)
    then have ne: "from_last_dot path \<noteq> path" by auto
    have "extname path = (if c = CHAR_DOT \<and> cs = [] \<and> suf = [] then [] else CHAR_DOT # suf)"
      using False slice by (simp add: extname_def st) (auto simp: len pre Let_def)
    then show ?thesis
      using ne by (simp add: fld dd)
  qed
qed




lemma or_else_empty: "or_else s [] = s"
  by (simp add: or_else_def)

lemma Number_toString_13:
  assumes "10 ^ 12 \<le> ts" and "ts < 10 ^ 13"
  shows "length (Number_toString ts) = 13 \<and> list_all is_digit (Number_toString ts)"
proof -
  from assms have pos: "\<not> ts < 0" by simp
  from assms have "nat ts < 10 ^ Suc 12" and "10 ^ 12 \<le> nat ts"
    by (simp_all add: nat_less_iff le_nat_iff)
  then have "length (digits_of (nat ts)) = Suc 12"
    by (intro length_digits_of) simp_all
  with pos show ?thesis
    by (simp add: Number_toString_def digits_of_digits)
qed

subsection \<open>The shape of the key\<close>

text \<open>
  Claim C4, as amended.  While the clock reads between \<open>10^12\<close> and \<open>10^13\<close>
  milliseconds and \<open>ulid()\<close> returns its token of 26 characters, the key is \<open>prod_\<close>,
  the 13 decimal digits of the time stamp, \<open>_\<close>, the 26 characters of the token and then
  the extension: \<open>.bin\<close> for an empty or absent name and \<open>path.extname\<close> of the name
  otherwise.  For a name without a slash,
  \<open>path.extname\<close> is the substring from the last dot onward, except that it is empty when
  that substring is the whole name (the name has no dot, or its only dot is its first
  character, as in \<open>.env\<close>) and when the name is \<open>..\<close>.
\<close>

theorem sanitizeFileName_pattern:
  assumes "10 ^ 12 \<le> ts" and "ts < 10 ^ 13" and "length uniqueId = 26"
  shows "(length (Number_toString ts) = 13 \<and> list_all is_digit (Number_toString ts)) \<and>
    sanitizeFileName ts uniqueId name =
      js ''prod_'' @ Number_toString ts @ js ''_'' @ uniqueId @
        (if truthy name then extname (the name) else js ''.bin'') \<and>
    (truthy name \<longrightarrow> CHAR_FORWARD_SLASH \<notin> set (the name) \<longrightarrow>
       extname (the name) =
         (if from_last_dot (the name) = the name \<or> the name = js ''..'' then []
          else from_last_dot (the name))) \<and>
    take 5 (sanitizeFileName ts uniqueId name) = js ''prod_'' \<and>
    length (take 13 (drop 5 (sanitizeFileName ts uniqueId name))) = 13 \<and>
    list_all is_digit (take 13 (drop 5 (sanitizeFileName ts uniqueId name))) \<and>
    take 1 (drop 18 (sanitizeFileName ts uniqueId name)) = js ''_'' \<and>
    length (take 26 (drop 19 (sanitizeFileName ts uniqueId name))) = 26 \<and>
    take 26 (drop 19 (sanitizeFileName ts uniqueId name)) = uniqueId \<and>
    drop 45 (sanitizeFileName ts uniqueId name) =
      (if truthy name then extname (the name) else js ''.bin'')"
proof -
  let ?stamp = "Number_toString ts"
  let ?ext = "if truthy name then extname (the name) else js ''.bin''"
  note stamp = Number_toString_13 [OF assms(1,2)]
  have key: "sanitizeFileName ts uniqueId name =
      js ''prod_'' @ ?stamp @ js ''_'' @ uniqueId @ ?ext"
    by (simp add: sanitizeFileName_def or_else_empty)
  have lit: "length (js ''prod_'') = 5" "length (js ''_'') = 1"
    by (simp_all add: js_def)
  have ext: "truthy name \<longrightarrow> CHAR_FORWARD_SLASH \<notin> set (the name) \<longrightarrow>
       extname (the name) =
         (if from_last_dot (the name) = the name \<or> the name = js ''..'' then []
          else from_last_dot (the name))"
    using extname_slash_free [of "the name"] by simp
  have p1: "take 5 (sanitizeFileName ts uniqueId name) = js ''prod_''"
    unfolding key using lit by simp
  have d5: "drop 5 (sanitizeFileName ts uniqueId name) = ?stamp @ js ''_'' @ uniqueId @ ?ext"
    unfolding key using lit by simp
  have p2: "take 13 (drop 5 (sanitizeFileName ts uniqueId name)) = ?stamp"
    unfolding d5 using stamp by simp
  have d18: "drop 18 (sanitizeFileName ts uniqueId name) = js ''_'' @ uniqueId @ ?ext"
  proof -
    have "drop 18 (sanitizeFileName ts uniqueId name) =
        drop 13 (drop 5 (sanitizeFileName ts uniqueId name))"
      by simp
    also have "\<dots> = js ''_'' @ uniqueId @ ?ext"
      unfolding d5 using stamp by simp
    finally show ?thesis .
  qed
  have p3: "take 1 (drop 18 (sanitizeFileName ts uniqueId name)) = js ''_''"
    unfolding d18 using lit by simp
  have d19: "drop 19 (sanitizeFileName ts uniqueId name) = uniqueId @ ?ext"
  proof -
    have "drop 19 (sanitizeFileName ts uniqueId name) =
        drop 1 (drop 18 (sanitizeFileName ts uniqueId name))"
      by simp
    also have "\<dots> = uniqueId @ ?ext"
      unfolding d18 using lit by simp
    finally show ?thesis .
  qed
  have p4: "take 26 (drop 19 (sanitizeFileName ts uniqueId name)) = uniqueId"
    unfolding d19 using assms(3) by simp
  have p5: "drop 45 (sanitizeFileName ts uniqueId name) = ?ext"
  proof -
    have "drop 45 (sanitizeFileName ts uniqueId name) =
        drop 26 (drop 19 (sanitizeFileName ts uniqueId name))"
      by simp
    also have "\<dots> = ?ext"
      unfolding d19 using assms(3) by simp
    finally show ?thesis .
  qed
  show ?thesis
    unfolding p2 p4 using stamp key ext p1 p3 p5 assms(3) by blast
qed

text \<open>
  The theorem at the name \<open>photo.final.png\<close>, whose extension is \<open>.png\<close>, with a token
  of 26 characters.
\<close>

theorem sanitizeFileName_pattern_witness:
  "((10::int) ^ 12 \<le> 1700000000000 \<and> (1700000000000::int) < 10 ^ 13) \<and>
   length (js ''01ARZ3NDEKTSV4RRFFQ69G5FAV'') = 26 \<and>
   truthy (Some (js ''photo.final.png'')) \<and>
   CHAR_FORWARD_SLASH \<notin> set (js ''photo.final.png'') \<and>
   length (Number_toString 1700000000000) = 13 \<and>
   sanitizeFileName 1700000000000 (js ''01ARZ3NDEKTSV4RRFFQ69G5FAV'')
       (Some (js ''photo.final.png'')) =
     js ''prod_'' @ Number_toString 1700000000000 @ js ''_''
       @ js ''01ARZ3NDEKTSV4RRFFQ69G5FAV'' @ js ''.png'' \<and>
   take 26 (drop 19 (sanitizeFileName 1700000000000 (js ''01ARZ3NDEKTSV4RRFFQ69G5FAV'')
       (Some (js ''photo.final.png'')))) = js ''01ARZ3NDEKTSV4RRFFQ69G5FAV'' \<and>
   drop 45 (sanitizeFileName 1700000000000 (js ''01ARZ3NDEKTSV4RRFFQ69G5FAV'')
       (Some (js ''photo.final.png''))) = js ''.png''"
proof -
  have h1: "(10::int) ^ 12 \<le> 1700000000000" by simp
  have h2: "(1700000000000::int) < 10 ^ 13" by simp
  have h5: "length (js ''01ARZ3NDEKTSV4RRFFQ69G5FAV'') = 26" by (simp add: js_def)
  have h3: "truthy (Some (js ''photo.final.png''))" by (simp add: js_def)
  have h4: "CHAR_FORWARD_SLASH \<notin> set (the (Some (js ''photo.final.png'')))"
    by (simp add: js_def)
  note t = sanitizeFileName_pattern [OF h1 h2 h5, of "Some (js ''photo.final.png'')"]
  from t have len: "length (Number_toString 1700000000000) = 13" by blast
  from t h3 h4 have ext: "extname (the (Some (js ''photo.final.png''))) =
      (if from_last_dot (the (Some (js ''photo.final.png''))) = the (Some (js ''photo.final.png''))
          \<or> the (Some (js ''photo.final.png'')) = js ''..'' then []
       else from_last_dot (the (Some (js ''photo.final.png''))))"
    by blast
  have fld: "from_last_dot (js ''photo.final.png'') = js ''.png''"
    by (simp add: from_last_dot_def js_def)
  have ne: "js ''.png'' \<noteq> js ''photo.final.png''" "js ''photo.final.png'' \<noteq> js ''..''"
    by (simp_all add: js_def)
  from ext have ext': "extname (js ''photo.final.png'') = js ''.png''"
    using ne by (simp add: fld)
  from t h3 have "sanitizeFileName 1700000000000 (js ''01ARZ3NDEKTSV4RRFFQ69G5FAV'')
       (Some (js ''photo.final.png'')) =
     js ''prod_'' @ Number_toString 1700000000000 @ js ''_''
       @ js ''01ARZ3NDEKTSV4RRFFQ69G5FAV'' @ extname (the (Some (js ''photo.final.png'')))"
    by presburger
  with ext' have key: "sanitizeFileName 1700000000000 (js ''01ARZ3NDEKTSV4RRFFQ69G5FAV'')
       (Some (js ''photo.final.png'')) =
     js ''prod_'' @ Number_toString 1700000000000 @ js ''_''
       @ js ''01ARZ3NDEKTSV4RRFFQ69G5FAV'' @ js ''.png''"
    by simp
  from t have tok: "take 26 (drop 19 (sanitizeFileName 1700000000000
       (js ''01ARZ3NDEKTSV4RRFFQ69G5FAV'') (Some (js ''photo.final.png'')))) =
     js ''01ARZ3NDEKTSV4RRFFQ69G5FAV''"
    by blast
  from t have "drop 45 (sanitizeFileName 1700000000000 (js ''01ARZ3NDEKTSV4RRFFQ69G5FAV'')
       (Some (js ''photo.final.png''))) =
     (if truthy (Some (js ''photo.final.png''))
      then extname (the (Some (js ''photo.final.png''))) else js ''.bin'')"
    by blast
  then have "drop 45 (sanitizeFileName 1700000000000 (js ''01ARZ3NDEKTSV4RRFFQ69G5FAV'')
       (Some (js ''photo.final.png''))) = extname (the (Some (js ''photo.final.png'')))"
    unfolding if_P [OF h3] .
  with ext' have tail: "drop 45 (sanitizeFileName 1700000000000 (js ''01ARZ3NDEKTSV4RRFFQ69G5FAV'')
       (Some (js ''photo.final.png''))) = js ''.png''"
    by simp
  from h1 h2 h3 h4 h5 len key tok tail show ?thesis by simp
qed

text \<open>
  Claim C4 as the specification states it fails for the name \<open>.env\<close>: the substring from
  the last dot onward is \<open>.env\<close>, but the key has no extension.
\<close>

theorem sanitizeFileName_dotfile_counterexample:
  "sanitizeFileName 1700000000000 (js ''01ARZ3NDEKTSV4RRFFQ69G5FAV'') (Some (js ''.env'')) =
     js ''prod_1700000000000_01ARZ3NDEKTSV4RRFFQ69G5FAV'' \<and>
   from_last_dot (js ''.env'') = js ''.env''"
  by (simp add: sanitizeFileName_def or_else_empty Number_toString_def digits_of.simps extname_def
      extname_init_def extname_seen_def String_slice_def from_last_dot_def js_def)

subsection \<open>The characters of the key\<close>

text \<open>
  Claim C1 says that the key has characters of \<open>[A-Za-z0-9_.]\<close> only.  The extension is
  copied from the name unchanged, so the name \<open>report.v1 final\<close> gives a key with a
  space in it.
\<close>

theorem sanitizeFileName_unsafe_extension:
  "sanitizeFileName 1700000000000 (js ''01ARZ3NDEKTSV4RRFFQ69G5FAV'')
       (Some (js ''report.v1 final'')) =
     js ''prod_1700000000000_01ARZ3NDEKTSV4RRFFQ69G5FAV.v1 final'' \<and>
   \<not> list_all key_char
       (sanitizeFileName 1700000000000 (js ''01ARZ3NDEKTSV4RRFFQ69G5FAV'')
          (Some (js ''report.v1 final'')))"
  by (simp add: sanitizeFileName_def or_else_empty Number_toString_def digits_of.simps extname_def
      extname_init_def extname_seen_def String_slice_def key_char_def js_def)

subsection \<open>The key depends on the extension only\<close>

text \<open>
  Claim C10: two non-empty file names with the same \<open>path.extname\<close> extension get the
  same key when the clock and the token are the same.
\<close>

theorem key_depends_on_extension_only:
  assumes "truthy a" and "truthy b" and "extname (the a) = extname (the b)"
  shows "sanitizeFileName ts uniqueId a = sanitizeFileName ts uniqueId b"
  using assms by (simp add: sanitizeFileName_def or_else_empty)

text \<open>The theorem at an ASCII name and a Chinese name, both with the extension \<open>.png\<close>.\<close>

theorem key_depends_on_extension_only_witness:
  "truthy (Some (js ''holiday photo.png'')) \<and> truthy (Some ([0x6211, 0x7684] @ js ''.png'')) \<and>
   extname (the (Some (js ''holiday photo.png''))) = extname (the (Some ([0x6211, 0x7684] @ js ''.png''))) \<and>
   sanitizeFileName 1700000000000 (js ''01ARZ3NDEKTSV4RRFFQ69G5FAV'') (Some (js ''holiday photo.png'')) =
   sanitizeFileName 1700000000000 (js ''01ARZ3NDEKTSV4RRFFQ69G5FAV'') (Some ([0x6211, 0x7684] @ js ''.png''))"
proof -
  have h1: "truthy (Some (js ''holiday photo.png''))" by (simp add: js_def)
  have h2: "truthy (Some ([0x6211, 0x7684] @ js ''.png''))" by simp
  have h3: "extname (the (Some (js ''holiday photo.png''))) =
      extname (the (Some ([0x6211, 0x7684] @ js ''.png'')))"
    by (simp add: extname_def extname_init_def extname_seen_def String_slice_def js_def)
  from h1 h2 h3 key_depends_on_extension_only [OF h1 h2 h3] show ?thesis by blast
qed

section \<open>Properties of the storage provider\<close>

subsection \<open>Strings\<close>




subsection \<open>What \<open>upload\<close> returns and sends\<close>

lemma upload_Inr:
  assumes "upload opts rt file w = (Inr r, w')"
  shows "\<exists>f. file = Some f \<and> truthy (filename f) \<and>
     r = \<lparr>url = upload_url opts (sanitizeFileName (Date_now rt) (ulid rt) (filename f)),
          key = sanitizeFileName (Date_now rt) (ulid rt) (filename f)\<rparr>"
  using assms
  by (auto simp: upload_def upload_try_def catch_def Let_def
      split: option.splits if_splits sum.splits settled.splits prod.splits)

lemma upload_sent:
  "sent (snd (upload opts rt file w)) = sent w \<or>
   (\<exists>f body enc. file = Some f \<and> truthy (filename f) \<and>
      upload_content (content f) = Inr body \<and> Encode (the (filename f)) = Some enc \<and>
      sent (snd (upload opts rt file w)) =
        sent w @ [PutObjectCommand (putCommandParams opts
           (sanitizeFileName (Date_now rt) (ulid rt) (filename f)) body (mimeType f) enc)])"
  by (auto simp: upload_def upload_try_def catch_def Let_def request_def logger_def
      split: option.splits if_splits sum.splits settled.splits prod.splits)

lemma upload_put:
  assumes "truthy (filename f)" and "upload_content (content f) = Inr body"
    and "Encode (the (filename f)) = Some enc"
  shows "sent (snd (upload opts rt (Some f) w)) =
     sent w @ [PutObjectCommand (putCommandParams opts
        (sanitizeFileName (Date_now rt) (ulid rt) (filename f)) body (mimeType f) enc)]"
  using assms
  by (simp add: upload_def upload_try_def catch_def Let_def request_def logger_def
      split: settled.splits)


text \<open>
  The strings the pattern \<open>/^[A-Za-z0-9+/]+=*$/\<close> matches: a non-empty run of alphabet
  characters followed by any number of \<open>=\<close> signs.
\<close>

lemma match_base64_iff:
  "match_base64 s \<longleftrightarrow>
     (\<exists>body pad. s = body @ pad \<and> body \<noteq> [] \<and> list_all base64_char body \<and>
        list_all (\<lambda>c. c = 61) pad)"
proof
  assume m: "match_base64 s"
  have "s = takeWhile base64_char s @ dropWhile base64_char s" by simp
  moreover have "list_all base64_char (takeWhile base64_char s)"
    by (simp add: list_all_iff) (meson set_takeWhileD)
  ultimately show "\<exists>body pad. s = body @ pad \<and> body \<noteq> [] \<and> list_all base64_char body \<and>
        list_all (\<lambda>c. c = 61) pad"
    using m unfolding match_base64_def by blast
next
  assume "\<exists>body pad. s = body @ pad \<and> body \<noteq> [] \<and> list_all base64_char body \<and>
        list_all (\<lambda>c. c = 61) pad"
  then obtain body pad where s: "s = body @ pad" and ne: "body \<noteq> []"
    and b: "list_all base64_char body" and p: "list_all (\<lambda>c. c = 61) pad"
    by blast
  have n61: "\<not> base64_char 61" by (simp add: base64_char_def)
  from p n61 have pad: "\<forall>c\<in>set pad. \<not> base64_char c" by (auto simp: list_all_iff)
  have tw: "takeWhile base64_char s = body"
  proof (cases pad)
    case Nil
    with b show ?thesis by (simp add: s list_all_iff)
  next
    case (Cons c cs)
    with pad have "\<not> base64_char c" by simp
    with b show ?thesis by (simp add: s Cons list_all_iff takeWhile_tail)
  qed
  have dw: "dropWhile base64_char s = pad"
  proof (cases pad)
    case Nil
    with b show ?thesis by (simp add: s list_all_iff)
  next
    case (Cons c cs)
    with pad have "\<not> base64_char c" by simp
    with b show ?thesis by (simp add: s Cons list_all_iff dropWhile_append3)
  qed
  show "match_base64 s"
    using ne p by (simp add: match_base64_def tw dw)
qed


subsection \<open>Validation comes first\<close>

text \<open>
  Claim C6: \<open>upload\<close> fails with \<open>INVALID_DATA\<close> (the specification's InvalidInput)
  when the file is absent or its file name is absent or empty, and the world it returns is
  the one it was given: nothing was sent to the store.
\<close>

theorem upload_validation:
  "upload opts rt None w = (Inl (MedusaError INVALID_DATA (js ''No file provided'')), w) \<and>
   (\<not> truthy (filename f) \<longrightarrow>
      upload opts rt (Some f) w =
        (Inl (MedusaError INVALID_DATA (js ''No filename provided'')), w))"
  by (simp add: upload_def)

text \<open>The theorem at a file whose name is the empty string.\<close>

theorem upload_validation_witness:
  "\<not> truthy (filename \<lparr>filename = Some [], mimeType = js ''image/png'',
                        content = StringContent (js ''QUJD'')\<rparr>) \<and>
   upload example_options (example_runtime empty_store)
       (Some \<lparr>filename = Some [], mimeType = js ''image/png'',
              content = StringContent (js ''QUJD'')\<rparr>) empty_world =
     (Inl (MedusaError INVALID_DATA (js ''No filename provided'')), empty_world) \<and>
   sent empty_world = []"
proof -
  let ?f = "\<lparr>filename = Some [], mimeType = js ''image/png'',
             content = StringContent (js ''QUJD'')\<rparr>"
  have h: "\<not> truthy (filename ?f)" by simp
  from upload_validation [of example_options "example_runtime empty_store" empty_world ?f] h
  have "upload example_options (example_runtime empty_store) (Some ?f) empty_world =
     (Inl (MedusaError INVALID_DATA (js ''No filename provided'')), empty_world)"
    by blast
  moreover have "sent empty_world = []" by (simp add: empty_world_def)
  ultimately show ?thesis using h by blast
qed

subsection \<open>The content of the PUT\<close>

text \<open>
  Claim C7: in the PUT that \<open>upload\<close> sends, a \<open>Buffer\<close> is the body as it is, another
  buffer-like value is converted with \<open>Buffer.from\<close>, and a string is decoded as base64
  exactly when it is a non-empty run of characters of the base64 alphabet followed by
  \<open>=\<close> signs, and as a binary string otherwise.  For a file with a non-empty name that
  \<open>encodeURIComponent\<close> accepts, the PUT with that body is sent.
\<close>

theorem upload_content_choice:
  "(sent (snd (upload opts rt (Some f) w)) = sent w @ [PutObjectCommand p] \<longrightarrow>
      (content f = BufferContent b \<longrightarrow> Body p = Some (TheBuffer b)) \<and>
      (content f = BufferLike b \<longrightarrow> Body p = Some (Buffer_from_object b)) \<and>
      (content f = StringContent s \<longrightarrow>
         Body p = Some (Buffer_from s
           (if \<exists>body pad. s = body @ pad \<and> body \<noteq> [] \<and> list_all base64_char body \<and>
                 list_all (\<lambda>c. c = 61) pad
            then Base64 else Binary)))) \<and>
   (truthy (filename f) \<and> Encode (the (filename f)) = Some enc \<longrightarrow>
      (content f = BufferContent b \<longrightarrow>
         (\<exists>q. sent (snd (upload opts rt (Some f) w)) = sent w @ [PutObjectCommand q] \<and>
              Body q = Some (TheBuffer b))) \<and>
      (content f = BufferLike b \<longrightarrow>
         (\<exists>q. sent (snd (upload opts rt (Some f) w)) = sent w @ [PutObjectCommand q] \<and>
              Body q = Some (Buffer_from_object b))) \<and>
      (content f = StringContent s \<longrightarrow>
         (\<exists>q. sent (snd (upload opts rt (Some f) w)) = sent w @ [PutObjectCommand q] \<and>
              Body q = Some (Buffer_from s
                (if \<exists>body pad. s = body @ pad \<and> body \<noteq> [] \<and> list_all base64_char body \<and>
                      list_all (\<lambda>c. c = 61) pad
                 then Base64 else Binary)))))"
proof (intro conjI impI)
  assume put: "sent (snd (upload opts rt (Some f) w)) = sent w @ [PutObjectCommand p]"
  from upload_sent [of opts rt "Some f" w] put
  obtain body e where c: "upload_content (content f) = Inr body"
    and p: "p = putCommandParams opts (sanitizeFileName (Date_now rt) (ulid rt) (filename f))
                  body (mimeType f) e"
    by auto
  have bp: "Body p = Some body" by (simp add: p putCommandParams_def)
  show "Body p = Some (TheBuffer b)" if "content f = BufferContent b"
    using c that by (simp add: bp)
  show "Body p = Some (Buffer_from_object b)" if "content f = BufferLike b"
    using c that by (simp add: bp)
  show "Body p = Some (Buffer_from s
           (if \<exists>body pad. s = body @ pad \<and> body \<noteq> [] \<and> list_all base64_char body \<and>
                 list_all (\<lambda>c. c = 61) pad
            then Base64 else Binary))" if "content f = StringContent s"
    using c that unfolding bp match_base64_iff [symmetric] by (auto split: if_splits)
next
  assume ok: "truthy (filename f) \<and> Encode (the (filename f)) = Some enc"
  have sent_put: "\<exists>q. sent (snd (upload opts rt (Some f) w)) = sent w @ [PutObjectCommand q] \<and>
      Body q = Some body" if "upload_content (content f) = Inr body" for body
  proof -
    from upload_put [of f body enc opts rt w] ok that
    have "sent (snd (upload opts rt (Some f) w)) =
        sent w @ [PutObjectCommand (putCommandParams opts
           (sanitizeFileName (Date_now rt) (ulid rt) (filename f)) body (mimeType f) enc)]"
      by simp
    moreover have "Body (putCommandParams opts
           (sanitizeFileName (Date_now rt) (ulid rt) (filename f)) body (mimeType f) enc) = Some body"
      by (simp add: putCommandParams_def)
    ultimately show ?thesis by blast
  qed
  show "\<exists>q. sent (snd (upload opts rt (Some f) w)) = sent w @ [PutObjectCommand q] \<and>
      Body q = Some (TheBuffer b)" if "content f = BufferContent b"
    using that by (intro sent_put) simp
  show "\<exists>q. sent (snd (upload opts rt (Some f) w)) = sent w @ [PutObjectCommand q] \<and>
      Body q = Some (Buffer_from_object b)" if "content f = BufferLike b"
    using that by (intro sent_put) simp
  show "\<exists>q. sent (snd (upload opts rt (Some f) w)) = sent w @ [PutObjectCommand q] \<and>
      Body q = Some (Buffer_from s
                (if \<exists>body pad. s = body @ pad \<and> body \<noteq> [] \<and> list_all base64_char body \<and>
                      list_all (\<lambda>c. c = 61) pad
                 then Base64 else Binary))" if "content f = StringContent s"
    using that unfolding match_base64_iff [symmetric] by (intro sent_put) simp
qed

text \<open>
  The theorem at four contents: the string \<open>QUJD\<close> is decoded as base64, the string
  \<open>hello world!\<close> as a binary string, an array-like value is converted, and a \<open>Buffer\<close>
  is the body as it is.  In each case the PUT is sent.
\<close>

theorem upload_content_choice_witness:
  "(\<exists>q. sent (snd (upload example_options (example_runtime empty_store)
        (Some \<lparr>filename = Some (js ''a.png''), mimeType = js ''image/png'',
               content = StringContent (js ''QUJD'')\<rparr>) empty_world)) =
       sent empty_world @ [PutObjectCommand q] \<and>
     Body q = Some (Buffer_from (js ''QUJD'') Base64)) \<and>
   (\<exists>q. sent (snd (upload example_options (example_runtime empty_store)
        (Some \<lparr>filename = Some (js ''a.png''), mimeType = js ''image/png'',
               content = StringContent (js ''hello world!'')\<rparr>) empty_world)) =
       sent empty_world @ [PutObjectCommand q] \<and>
     Body q = Some (Buffer_from (js ''hello world!'') Binary)) \<and>
   (\<exists>q. sent (snd (upload example_options (example_runtime empty_store)
        (Some \<lparr>filename = Some (js ''a.png''), mimeType = js ''image/png'',
               content = BufferLike [1, 2, 3]\<rparr>) empty_world)) =
       sent empty_world @ [PutObjectCommand q] \<and>
     Body q = Some (Buffer_from_object [1, 2, 3])) \<and>
   (\<exists>q. sent (snd (upload example_options (example_runtime empty_store)
        (Some \<lparr>filename = Some (js ''a.png''), mimeType = js ''image/png'',
               content = BufferContent [1, 2, 3]\<rparr>) empty_world)) =
       sent empty_world @ [PutObjectCommand q] \<and>
     Body q = Some (TheBuffer [1, 2, 3]))"
proof -
  let ?f = "\<lambda>c. \<lparr>filename = Some (js ''a.png''), mimeType = js ''image/png'', content = c\<rparr>"
  let ?rt = "example_runtime empty_store"
  have e: "Encode (js ''a.png'') = Some (js ''a.png'')"
    by (simp add: uri_unreserved_def js_def)
  have ok: "truthy (filename (?f c)) \<and> Encode (the (filename (?f c))) = Some (js ''a.png'')" for c
    using e by (simp add: js_def)
  have m: "match_base64 (js ''QUJD'')"
    by (simp add: match_base64_def base64_char_def js_def)
  have d: "\<exists>body pad. js ''QUJD'' = body @ pad \<and> body \<noteq> [] \<and> list_all base64_char body \<and>
               list_all (\<lambda>c. c = 61) pad"
    using m by (simp only: match_base64_iff)
  have n: "\<not> match_base64 (js ''hello world!'')"
    by (simp add: match_base64_def base64_char_def js_def)
  have nd: "\<not> (\<exists>body pad. js ''hello world!'' = body @ pad \<and> body \<noteq> [] \<and>
               list_all base64_char body \<and> list_all (\<lambda>c. c = 61) pad)"
    using n unfolding match_base64_iff .
  from upload_content_choice [where f = "?f (StringContent (js ''QUJD''))" and s = "js ''QUJD''"
      and enc = "js ''a.png''" and opts = example_options and rt = ?rt and w = empty_world]
    ok [of "StringContent (js ''QUJD'')"]
  have "\<exists>q. sent (snd (upload example_options ?rt (Some (?f (StringContent (js ''QUJD''))))
          empty_world)) = sent empty_world @ [PutObjectCommand q] \<and>
      Body q = Some (Buffer_from (js ''QUJD'')
        (if \<exists>body pad. js ''QUJD'' = body @ pad \<and> body \<noteq> [] \<and> list_all base64_char body \<and>
               list_all (\<lambda>c. c = 61) pad then Base64 else Binary))"
    by simp
  then have r1: "\<exists>q. sent (snd (upload example_options ?rt
          (Some (?f (StringContent (js ''QUJD'')))) empty_world)) =
        sent empty_world @ [PutObjectCommand q] \<and>
      Body q = Some (Buffer_from (js ''QUJD'') Base64)"
    unfolding if_P [OF d] .
  from upload_content_choice [where f = "?f (StringContent (js ''hello world!''))"
      and s = "js ''hello world!''"
      and enc = "js ''a.png''" and opts = example_options and rt = ?rt and w = empty_world]
    ok [of "StringContent (js ''hello world!'')"]
  have "\<exists>q. sent (snd (upload example_options ?rt
          (Some (?f (StringContent (js ''hello world!'')))) empty_world)) =
        sent empty_world @ [PutObjectCommand q] \<and>
      Body q = Some (Buffer_from (js ''hello world!'')
        (if \<exists>body pad. js ''hello world!'' = body @ pad \<and> body \<noteq> [] \<and>
               list_all base64_char body \<and> list_all (\<lambda>c. c = 61) pad
         then Base64 else Binary))"
    by simp
  then have r2: "\<exists>q. sent (snd (upload example_options ?rt
          (Some (?f (StringContent (js ''hello world!'')))) empty_world)) =
        sent empty_world @ [PutObjectCommand q] \<and>
      Body q = Some (Buffer_from (js ''hello world!'') Binary)"
    unfolding if_not_P [OF nd] .
  from upload_content_choice [where f = "?f (BufferLike [1, 2, 3])" and b = "[1, 2, 3]"
      and enc = "js ''a.png''" and opts = example_options and rt = ?rt and w = empty_world]
    ok [of "BufferLike [1, 2, 3]"]
  have r3: "\<exists>q. sent (snd (upload example_options ?rt (Some (?f (BufferLike [1, 2, 3])))
          empty_world)) = sent empty_world @ [PutObjectCommand q] \<and>
      Body q = Some (Buffer_from_object [1, 2, 3])"
    by simp
  from upload_content_choice [where f = "?f (BufferContent [1, 2, 3])" and b = "[1, 2, 3]"
      and enc = "js ''a.png''" and opts = example_options and rt = ?rt and w = empty_world]
    ok [of "BufferContent [1, 2, 3]"]
  have r4: "\<exists>q. sent (snd (upload example_options ?rt (Some (?f (BufferContent [1, 2, 3])))
          empty_world)) = sent empty_world @ [PutObjectCommand q] \<and>
      Body q = Some (TheBuffer [1, 2, 3])"
    by simp
  from r1 r2 r3 r4 show ?thesis by blast
qed

subsection \<open>The ACL of the PUT\<close>




subsection \<open>The URL of an uploaded object\<close>











subsection \<open>\<open>getPresignedUploadUrl\<close>\<close>

text \<open>
  Claim C9: \<open>getPresignedUploadUrl\<close> fails with \<open>INVALID_DATA\<close> when the file name is
  missing; for a non-empty file name the key is \<open>sanitizeFileName\<close> of it, the key
  \<open>upload\<close> returns for the same name in the same runtime, and the URL is what
  \<open>getSignedUrl\<close> returns for a PUT of that key with \<open>expiresIn\<close> of \<open>15 * 60\<close>
  seconds; when the signer fails, so does the call, with \<open>UNEXPECTED_STATE\<close>.
\<close>

theorem getPresignedUploadUrl_key:
  "(\<not> truthy (presigned_filename fileData) \<longrightarrow>
      getPresignedUploadUrl opts rt fileData w =
        (Inl (MedusaError INVALID_DATA (js ''No filename provided'')), w)) \<and>
   (truthy (presigned_filename fileData) \<longrightarrow>
      (getSignedUrl rt
         (PutObjectCommand
            \<lparr>Bucket = bucket opts,
             Key = sanitizeFileName (Date_now rt) (ulid rt) (presigned_filename fileData),
             Body = None, ContentType = None, Metadata = None, ACL = None\<rparr>)
         (15 * 60) = Resolved u \<longrightarrow>
       getPresignedUploadUrl opts rt fileData w =
         (Inr \<lparr>url = u,
               key = sanitizeFileName (Date_now rt) (ulid rt) (presigned_filename fileData)\<rparr>,
          w)) \<and>
      (getSignedUrl rt
         (PutObjectCommand
            \<lparr>Bucket = bucket opts,
             Key = sanitizeFileName (Date_now rt) (ulid rt) (presigned_filename fileData),
             Body = None, ContentType = None, Metadata = None, ACL = None\<rparr>)
         (15 * 60) = Rejected m \<longrightarrow>
       fst (getPresignedUploadUrl opts rt fileData w) =
         Inl (MedusaError UNEXPECTED_STATE
                (js ''Failed to generate presigned upload URL: '' @ m))) \<and>
      (filename f = presigned_filename fileData \<and>
       upload opts rt (Some f) w1 = (Inr r, w2) \<longrightarrow>
         key r = sanitizeFileName (Date_now rt) (ulid rt) (presigned_filename fileData)))"
proof -
  have "key r = sanitizeFileName (Date_now rt) (ulid rt) (presigned_filename fileData)"
    if "filename f = presigned_filename fileData" "upload opts rt (Some f) w1 = (Inr r, w2)"
    using upload_Inr [OF that(2)] that(1) by auto
  then show ?thesis
    by (auto simp: getPresignedUploadUrl_def getPresignedUploadUrl_try_def catch_def Let_def)
qed

text \<open>The theorem at the name \<open>my photo.png\<close>.\<close>

theorem getPresignedUploadUrl_key_witness:
  "truthy (presigned_filename (Some (PresignedUpload (Some (js ''my photo.png''))))) \<and>
   getPresignedUploadUrl example_options (example_runtime empty_store)
       (Some (PresignedUpload (Some (js ''my photo.png'')))) empty_world =
     (Inr \<lparr>url = js ''https://signed.example/put'',
           key = js ''prod_1700000000000_01ARZ3NDEKTSV4RRFFQ69G5FAV.png''\<rparr>, empty_world)"
proof -
  let ?fd = "Some (PresignedUpload (Some (js ''my photo.png'')))"
  let ?rt = "example_runtime empty_store"
  have n: "presigned_filename ?fd = Some (js ''my photo.png'')"
    by (simp add: presigned_filename_def)
  have h: "truthy (presigned_filename ?fd)" unfolding n by (simp add: js_def)
  have key: "sanitizeFileName (Date_now ?rt) (ulid ?rt) (presigned_filename ?fd) =
      js ''prod_1700000000000_01ARZ3NDEKTSV4RRFFQ69G5FAV.png''"
    unfolding n
    by (simp add: example_runtime_def sanitizeFileName_def Number_toString_def digits_of.simps
        extname_def or_else_def extname_init_def extname_seen_def String_slice_def js_def)
  have s: "getSignedUrl ?rt
         (PutObjectCommand
            \<lparr>Bucket = bucket example_options,
             Key = sanitizeFileName (Date_now ?rt) (ulid ?rt) (presigned_filename ?fd),
             Body = None, ContentType = None, Metadata = None, ACL = None\<rparr>)
         (15 * 60) = Resolved (js ''https://signed.example/put'')"
    by (simp add: example_runtime_def)
  from getPresignedUploadUrl_key [of ?fd example_options ?rt empty_world
      "js ''https://signed.example/put''"] h s
  have "getPresignedUploadUrl example_options ?rt ?fd empty_world =
         (Inr \<lparr>url = js ''https://signed.example/put'',
               key = sanitizeFileName (Date_now ?rt) (ulid ?rt) (presigned_filename ?fd)\<rparr>,
          empty_world)"
    by blast
  with h show ?thesis unfolding key by blast
qed

subsection \<open>\<open>getAsBuffer\<close>\<close>

text \<open>
  The \<open>NOT_FOUND\<close> error is thrown inside the \<open>try\<close> block, so the catch block turns it
  into \<open>UNEXPECTED_STATE\<close>: no call of \<open>getAsBuffer\<close> fails with \<open>NOT_FOUND\<close>.  A
  missing key gives \<open>INVALID_DATA\<close> and a rejected request \<open>UNEXPECTED_STATE\<close>.
\<close>

lemma getAsBuffer_never_NOT_FOUND:
  "fst (getAsBuffer opts rt fileData w) \<noteq> Inl (MedusaError NOT_FOUND m)"
  by (auto simp: getAsBuffer_def getAsBuffer_try_def catch_def Let_def
      split: settled.splits option.splits)

lemma getAsBuffer_errors:
  "(\<not> truthy (fileKey_of fileData) \<longrightarrow>
      getAsBuffer opts rt fileData w =
        (Inl (MedusaError INVALID_DATA (js ''No file key provided'')), w)) \<and>
   (truthy (fileKey_of fileData) \<longrightarrow>
      send rt (sent w) (GetObjectCommand (bucket opts) (the (fileKey_of fileData))) = Rejected m \<longrightarrow>
      fst (getAsBuffer opts rt fileData w) =
        Inl (MedusaError UNEXPECTED_STATE (js ''Failed to get buffer: '' @ m)))"
  by (auto simp: getAsBuffer_def getAsBuffer_try_def catch_def Let_def)

text \<open>
  Claim C2 says that \<open>getAsBuffer\<close> fails with NotFound when the store answers without
  a body.  For the key \<open>missing.png\<close> and such a store the code fails with
  \<open>UNEXPECTED_STATE\<close>.
\<close>

theorem getAsBuffer_empty_body:
  "getAsBuffer example_options (example_runtime empty_store)
       (Some \<lparr>fileKey = Some (js ''missing.png'')\<rparr>) empty_world =
     (Inl (MedusaError UNEXPECTED_STATE
             (js ''Failed to get buffer: File missing.png not found or empty'')),
      \<lparr>sent = [GetObjectCommand (js ''media'') (js ''missing.png'')],
       log = [(ERROR, js ''Failed to get buffer: File missing.png not found or empty'')]\<rparr>)"
  by (simp add: getAsBuffer_def getAsBuffer_try_def catch_def fileKey_of_def
      example_runtime_def empty_store_def example_options_def empty_world_def
      request_def logger_def js_def)


subsection \<open>\<open>delete\<close>\<close>

text \<open>
  One turn of the loop for an item with a key: the request is sent and one line is logged,
  a warning when the store rejects the request.
\<close>

lemma delete_loop_step:
  "truthy (fileKey_of file) \<Longrightarrow>
   delete_loop opts rt (file # files) w =
     delete_loop opts rt files
       (w\<lparr>sent := sent w @ [deleteCommand opts file],
          log := log w @
            [case send rt (sent w) (deleteCommand opts file) of
               Resolved out \<Rightarrow>
                 (INFO, js ''Successfully deleted file '' @ the (fileKey_of file)
                          @ js '' from S3 bucket '' @ bucket opts)
             | Rejected m \<Rightarrow>
                 (WARN, js ''Failed to delete file '' @ the (fileKey_of file)
                          @ js '': '' @ m)]\<rparr>)"
  by (simp add: logger_def request_def split: settled.splits)

lemma delete_loop_all_present:
  "\<forall>file\<in>set files. truthy (fileKey_of file) \<Longrightarrow>
   fst (delete_loop opts rt files w) = Inr () \<and>
   sent (snd (delete_loop opts rt files w)) = sent w @ map (deleteCommand opts) files \<and>
   take (length (log w)) (log (snd (delete_loop opts rt files w))) = log w"
proof (induction files arbitrary: w)
  case Nil
  then show ?case by simp
next
  case (Cons item items)
  then have ok: "truthy (fileKey_of item)" and rest: "\<forall>item\<in>set items. truthy (fileKey_of item)"
    by simp_all
  let ?w = "w\<lparr>sent := sent w @ [deleteCommand opts item],
          log := log w @
            [case send rt (sent w) (deleteCommand opts item) of
               Resolved out \<Rightarrow>
                 (INFO, js ''Successfully deleted file '' @ the (fileKey_of item)
                          @ js '' from S3 bucket '' @ bucket opts)
             | Rejected m \<Rightarrow>
                 (WARN, js ''Failed to delete file '' @ the (fileKey_of item)
                          @ js '': '' @ m)]\<rparr>"
  note ih = Cons.IH [OF rest, of ?w]
  have "take (Suc (length (log w))) (log (snd (delete_loop opts rt items ?w))) = log ?w"
    using ih by simp
  then have "take (length (log w)) (take (Suc (length (log w)))
       (log (snd (delete_loop opts rt items ?w)))) = take (length (log w)) (log ?w)"
    by simp
  then have "take (length (log w)) (log (snd (delete_loop opts rt items ?w))) = log w"
    by simp
  with ih show ?case
    unfolding delete_loop_step [OF ok] by simp
qed

lemma delete_loop_log:
  "\<forall>file\<in>set files. truthy (fileKey_of file) \<Longrightarrow> i < length files \<Longrightarrow>
   log (snd (delete_loop opts rt files w)) ! (length (log w) + i) =
     (case send rt (sent w @ map (deleteCommand opts) (take i files))
             (deleteCommand opts (files ! i)) of
        Resolved out \<Rightarrow>
          (INFO, js ''Successfully deleted file '' @ the (fileKey_of (files ! i))
                   @ js '' from S3 bucket '' @ bucket opts)
      | Rejected m \<Rightarrow>
          (WARN, js ''Failed to delete file '' @ the (fileKey_of (files ! i))
                   @ js '': '' @ m))"
proof (induction files arbitrary: w i)
  case Nil
  then show ?case by simp
next
  case (Cons item items)
  then have ok: "truthy (fileKey_of item)" and rest: "\<forall>item\<in>set items. truthy (fileKey_of item)"
    by simp_all
  let ?e = "case send rt (sent w) (deleteCommand opts item) of
               Resolved out \<Rightarrow>
                 (INFO, js ''Successfully deleted file '' @ the (fileKey_of item)
                          @ js '' from S3 bucket '' @ bucket opts)
             | Rejected m \<Rightarrow>
                 (WARN, js ''Failed to delete file '' @ the (fileKey_of item)
                          @ js '': '' @ m)"
  let ?w = "w\<lparr>sent := sent w @ [deleteCommand opts item], log := log w @ [?e]\<rparr>"
  show ?case
  proof (cases i)
    case 0
    from delete_loop_all_present [OF rest, of opts rt ?w]
    have "take (Suc (length (log w))) (log (snd (delete_loop opts rt items ?w))) = log w @ [?e]"
      by simp
    then have "take (Suc (length (log w))) (log (snd (delete_loop opts rt items ?w)))
          ! length (log w) = (log w @ [?e]) ! length (log w)"
      by simp
    then have "log (snd (delete_loop opts rt items ?w)) ! length (log w) = ?e"
      by simp
    then show ?thesis
      unfolding delete_loop_step [OF ok] by (simp add: 0 cong: settled.case_cong)
  next
    case (Suc j)
    with Cons.prems have j: "j < length items" by simp
    from Cons.IH [OF rest j, of ?w] show ?thesis
      unfolding delete_loop_step [OF ok] by (simp add: Suc cong: settled.case_cong)
  qed
qed

lemma delete_loop_missing:
  "\<forall>file\<in>set pre. truthy (fileKey_of file) \<Longrightarrow> \<not> truthy (fileKey_of bad) \<Longrightarrow>
   fst (delete_loop opts rt (pre @ bad # rest) w) =
     Inl (MedusaError INVALID_DATA (js ''No file key provided'')) \<and>
   sent (snd (delete_loop opts rt (pre @ bad # rest) w)) =
     sent w @ map (deleteCommand opts) pre"
proof (induction pre arbitrary: w)
  case Nil
  then show ?case by simp
next
  case (Cons item others)
  then have ok: "truthy (fileKey_of item)" and rest: "\<forall>item\<in>set others. truthy (fileKey_of item)"
    by simp_all
  show ?case
    using Cons.IH [OF rest Cons.prems(2)]
    unfolding append_Cons delete_loop_step [OF ok] by simp
qed

text \<open>
  Claim C3, as amended.  When every item has a non-empty key, \<open>delete\<close> resolves, a
  delete request is sent for every item in order, and a request that the store rejects
  leaves a warning in the log at the place of its item.  When an item has no key,
  \<open>delete\<close> fails with \<open>INVALID_DATA\<close> at the first such item: the requests for the
  items before it have been sent, and none for it or the items after it.
\<close>

theorem delete_best_effort:
  "((\<forall>file\<in>set (as_array fileData). truthy (fileKey_of file)) \<longrightarrow>
      fst (delete opts rt fileData w) = Inr () \<and>
      sent (snd (delete opts rt fileData w)) =
        sent w @ map (deleteCommand opts) (as_array fileData) \<and>
      (i < length (as_array fileData) \<and>
       send rt (sent w @ map (deleteCommand opts) (take i (as_array fileData)))
         (deleteCommand opts (as_array fileData ! i)) = Rejected m \<longrightarrow>
         log (snd (delete opts rt fileData w)) ! (length (log w) + i) =
           (WARN, js ''Failed to delete file '' @ the (fileKey_of (as_array fileData ! i))
                    @ js '': '' @ m))) \<and>
   (as_array fileData = pre @ bad # rest \<and> (\<forall>file\<in>set pre. truthy (fileKey_of file)) \<and>
    \<not> truthy (fileKey_of bad) \<longrightarrow>
      fst (delete opts rt fileData w) =
        Inl (MedusaError INVALID_DATA (js ''No file key provided'')) \<and>
      sent (snd (delete opts rt fileData w)) = sent w @ map (deleteCommand opts) pre)"
proof (intro conjI impI)
  assume a: "\<forall>file\<in>set (as_array fileData). truthy (fileKey_of file)"
  from delete_loop_all_present [OF a, of opts rt w]
  show "fst (delete opts rt fileData w) = Inr ()"
    and "sent (snd (delete opts rt fileData w)) =
        sent w @ map (deleteCommand opts) (as_array fileData)"
    by (simp_all add: delete_def)
  assume b: "i < length (as_array fileData) \<and>
       send rt (sent w @ map (deleteCommand opts) (take i (as_array fileData)))
         (deleteCommand opts (as_array fileData ! i)) = Rejected m"
  with delete_loop_log [OF a, of i opts rt w]
  show "log (snd (delete opts rt fileData w)) ! (length (log w) + i) =
           (WARN, js ''Failed to delete file '' @ the (fileKey_of (as_array fileData ! i))
                    @ js '': '' @ m)"
    by (simp add: delete_def)
next
  assume c: "as_array fileData = pre @ bad # rest \<and> (\<forall>file\<in>set pre. truthy (fileKey_of file)) \<and>
    \<not> truthy (fileKey_of bad)"
  with delete_loop_missing [of pre bad opts rt rest w]
  show "fst (delete opts rt fileData w) =
        Inl (MedusaError INVALID_DATA (js ''No file key provided''))"
    by (simp add: delete_def)
next
  assume c: "as_array fileData = pre @ bad # rest \<and> (\<forall>file\<in>set pre. truthy (fileKey_of file)) \<and>
    \<not> truthy (fileKey_of bad)"
  with delete_loop_missing [of pre bad opts rt rest w]
  show "sent (snd (delete opts rt fileData w)) = sent w @ map (deleteCommand opts) pre"
    by (simp add: delete_def)
qed

text \<open>
  The theorem at three keys of which the store rejects the second, and at three items of
  which the second has no key.
\<close>

theorem delete_best_effort_witness:
  "fst (delete example_options (example_runtime rejecting_store)
         (Many [Some \<lparr>fileKey = Some (js ''a.png'')\<rparr>, Some \<lparr>fileKey = Some (js ''b.png'')\<rparr>,
                Some \<lparr>fileKey = Some (js ''c.png'')\<rparr>]) empty_world) = Inr () \<and>
   sent (snd (delete example_options (example_runtime rejecting_store)
         (Many [Some \<lparr>fileKey = Some (js ''a.png'')\<rparr>, Some \<lparr>fileKey = Some (js ''b.png'')\<rparr>,
                Some \<lparr>fileKey = Some (js ''c.png'')\<rparr>]) empty_world)) =
     [DeleteObjectCommand (js ''media'') (js ''a.png''),
      DeleteObjectCommand (js ''media'') (js ''b.png''),
      DeleteObjectCommand (js ''media'') (js ''c.png'')] \<and>
   log (snd (delete example_options (example_runtime rejecting_store)
         (Many [Some \<lparr>fileKey = Some (js ''a.png'')\<rparr>, Some \<lparr>fileKey = Some (js ''b.png'')\<rparr>,
                Some \<lparr>fileKey = Some (js ''c.png'')\<rparr>]) empty_world)) ! 1 =
     (WARN, js ''Failed to delete file b.png: AccessDenied'') \<and>
   fst (delete example_options (example_runtime rejecting_store)
         (Many [Some \<lparr>fileKey = Some (js ''a.png'')\<rparr>, Some \<lparr>fileKey = None\<rparr>,
                Some \<lparr>fileKey = Some (js ''c.png'')\<rparr>]) empty_world) =
     Inl (MedusaError INVALID_DATA (js ''No file key provided'')) \<and>
   sent (snd (delete example_options (example_runtime rejecting_store)
         (Many [Some \<lparr>fileKey = Some (js ''a.png'')\<rparr>, Some \<lparr>fileKey = None\<rparr>,
                Some \<lparr>fileKey = Some (js ''c.png'')\<rparr>]) empty_world)) =
     [DeleteObjectCommand (js ''media'') (js ''a.png'')]"
proof -
  let ?a = "Some \<lparr>fileKey = Some (js ''a.png'')\<rparr>"
  let ?b = "Some \<lparr>fileKey = Some (js ''b.png'')\<rparr>"
  let ?c = "Some \<lparr>fileKey = Some (js ''c.png'')\<rparr>"
  let ?n = "Some \<lparr>fileKey = None\<rparr>"
  let ?rt = "example_runtime rejecting_store"
  have all: "\<forall>file\<in>set (as_array (Many [?a, ?b, ?c])). truthy (fileKey_of file)"
    by (simp add: fileKey_of_def js_def)
  have i: "1 < length (as_array (Many [?a, ?b, ?c]))" by simp
  have rej: "send ?rt (sent empty_world @ map (deleteCommand example_options)
                 (take 1 (as_array (Many [?a, ?b, ?c]))))
        (deleteCommand example_options (as_array (Many [?a, ?b, ?c]) ! 1)) =
      Rejected (js ''AccessDenied'')"
    by (simp add: example_runtime_def rejecting_store_def deleteCommand_def fileKey_of_def
        example_options_def)
  have cmds: "sent empty_world @ map (deleteCommand example_options) (as_array (Many [?a, ?b, ?c])) =
      [DeleteObjectCommand (js ''media'') (js ''a.png''),
       DeleteObjectCommand (js ''media'') (js ''b.png''),
       DeleteObjectCommand (js ''media'') (js ''c.png'')]"
    by (simp add: deleteCommand_def fileKey_of_def example_options_def empty_world_def)
  have entry: "(WARN, js ''Failed to delete file '' @
        the (fileKey_of (as_array (Many [?a, ?b, ?c]) ! 1)) @ js '': '' @ js ''AccessDenied'') =
      (WARN, js ''Failed to delete file b.png: AccessDenied'')"
    by (simp add: fileKey_of_def js_def)
  have pos: "length (log empty_world) + 1 = 1" by (simp add: empty_world_def)
  note ok = delete_best_effort [of "Many [?a, ?b, ?c]" example_options ?rt empty_world 1
      "js ''AccessDenied''"]
  from ok all have r1: "fst (delete example_options ?rt (Many [?a, ?b, ?c]) empty_world) = Inr ()"
    by blast
  from ok all have r2: "sent (snd (delete example_options ?rt (Many [?a, ?b, ?c]) empty_world)) =
      sent empty_world @ map (deleteCommand example_options) (as_array (Many [?a, ?b, ?c]))"
    by blast
  from ok all i rej
  have r3: "log (snd (delete example_options ?rt (Many [?a, ?b, ?c]) empty_world))
        ! (length (log empty_world) + 1) =
      (WARN, js ''Failed to delete file '' @
        the (fileKey_of (as_array (Many [?a, ?b, ?c]) ! 1)) @ js '': '' @ js ''AccessDenied'')"
    by blast
  have split: "as_array (Many [?a, ?n, ?c]) = [?a] @ ?n # [?c]" by simp
  have pre: "\<forall>file\<in>set [?a]. truthy (fileKey_of file)"
    by (simp add: fileKey_of_def js_def)
  have bad: "\<not> truthy (fileKey_of ?n)" by (simp add: fileKey_of_def)
  have cmd1: "sent empty_world @ map (deleteCommand example_options) [?a] =
      [DeleteObjectCommand (js ''media'') (js ''a.png'')]"
    by (simp add: deleteCommand_def fileKey_of_def example_options_def empty_world_def)
  note missing = delete_best_effort [of "Many [?a, ?n, ?c]" example_options ?rt empty_world
      _ _ "[?a]" ?n "[?c]"]
  from missing split pre bad
  have r4: "fst (delete example_options ?rt (Many [?a, ?n, ?c]) empty_world) =
      Inl (MedusaError INVALID_DATA (js ''No file key provided''))"
    by blast
  from missing split pre bad
  have r5: "sent (snd (delete example_options ?rt (Many [?a, ?n, ?c]) empty_world)) =
      sent empty_world @ map (deleteCommand example_options) [?a]"
    by blast
  from r1 r2 r3 r4 r5 show ?thesis
    unfolding cmds entry pos cmd1 by blast
qed

text \<open>
  Claim C3 as the specification states it fails: with the keys \<open>a.png\<close> and none, the
  call fails with \<open>INVALID_DATA\<close> after the delete request for \<open>a.png\<close> was sent.
\<close>

theorem delete_validation_counterexample:
  "delete example_options (example_runtime empty_store)
       (Many [Some \<lparr>fileKey = Some (js ''a.png'')\<rparr>, Some \<lparr>fileKey = None\<rparr>]) empty_world =
     (Inl (MedusaError INVALID_DATA (js ''No file key provided'')),
      \<lparr>sent = [DeleteObjectCommand (js ''media'') (js ''a.png'')],
       log = [(INFO, js ''Successfully deleted file a.png from S3 bucket media'')]\<rparr>)"
  by (simp add: delete_def deleteCommand_def fileKey_of_def example_runtime_def empty_store_def
      example_options_def empty_world_def request_def logger_def js_def)

end
